theory Spec2Isabelle
  imports Complex_Main "HOL-Library.Sublist"
begin

section \<open>Strings\<close>

text \<open>
  Tickers are Python \<open>str\<close> values. The model covers ASCII text: a string is a list of
  characters, \<open>str.strip()\<close> removes the ASCII characters Python counts as whitespace
  (tab, line feed, vertical tab, form feed, carriage return, the separators 0x1C to 0x1F
  and the space) from both ends, and \<open>str.upper()\<close> maps a to z onto A to Z and leaves
  every other character as it is.
\<close>

definition is_space :: "char \<Rightarrow> bool" where
  "is_space c = (c \<in> set [CHR 0x09, CHR 0x0A, CHR 0x0B, CHR 0x0C, CHR 0x0D,
                            CHR 0x1C, CHR 0x1D, CHR 0x1E, CHR 0x1F, CHR '' ''])"

definition strip :: "string \<Rightarrow> string" where
  "strip s = rev (dropWhile is_space (rev (dropWhile is_space s)))"

definition upper_char :: "char \<Rightarrow> char" where
  "upper_char c =
     (case map_of (zip ''abcdefghijklmnopqrstuvwxyz'' ''ABCDEFGHIJKLMNOPQRSTUVWXYZ'') c of
        Some u \<Rightarrow> u
      | None \<Rightarrow> c)"

definition upper :: "string \<Rightarrow> string" where
  "upper s = map upper_char s"

definition endswith :: "string \<Rightarrow> string \<Rightarrow> bool" where
  "endswith s suf = (length suf \<le> length s \<and> drop (length s - length suf) s = suf)"

text \<open>\<open>" ".join(symbols)\<close>, the argument of the batch download.\<close>

fun join_space :: "string list \<Rightarrow> string" where
  "join_space [] = []"
| "join_space [s] = s"
| "join_space (s # ss) = s @ '' '' @ join_space ss"

section \<open>The symbol resolver\<close>

text \<open>
  \<^verbatim>\<open>
  def to_symbol(ticker):
      ticker = ticker.strip().upper()
      if ticker.endswith('.NS') or ticker.endswith('.BO'):
          return ticker
      return ticker + '.NS'
  \<close>
\<close>

definition to_symbol :: "string \<Rightarrow> string" where
  "to_symbol ticker0 =
     (let ticker = upper (strip ticker0)
      in if endswith ticker ''.NS'' \<or> endswith ticker ''.BO'' then ticker
         else ticker @ ''.NS'')"

section \<open>Numbers and JSON values\<close>

text \<open>
  Closing prices are floating-point numbers (float64). Their arithmetic belongs to the
  Python runtime and to numpy, not to this program, and the result of an operation depends
  on it to the last bit. So the model fixes neither the type of a price nor the result of
  an operation: the type \<open>'f\<close> and the operations the program applies to prices are
  parameters.

  \<^item> \<open>f_isnan\<close>: the missing-value test behind \<open>dropna()\<close>;
  \<^item> \<open>f_ne0 x\<close>: the comparison \<open>x != 0\<close>;
  \<^item> \<open>f_zero\<close>: the literal \<open>0.0\<close>;
  \<^item> \<open>f_sub\<close>, \<open>f_div\<close>: \<open>x - y\<close> and \<open>x / y\<close>;
  \<^item> \<open>f_mul100 x\<close>: \<open>x * 100\<close>;
  \<^item> \<open>f_round2 x\<close>: \<open>round(x, 2)\<close>, and \<open>f_round4 x\<close>: \<open>round(float(x), 4)\<close>.
\<close>

record 'f numerics =
  f_isnan :: "'f \<Rightarrow> bool"
  f_ne0 :: "'f \<Rightarrow> bool"
  f_zero :: 'f
  f_sub :: "'f \<Rightarrow> 'f \<Rightarrow> 'f"
  f_div :: "'f \<Rightarrow> 'f \<Rightarrow> 'f"
  f_mul100 :: "'f \<Rightarrow> 'f"
  f_round2 :: "'f \<Rightarrow> 'f"
  f_round4 :: "'f \<Rightarrow> 'f"

text \<open>The values the dictionaries of the service hold: \<open>None\<close>, a number or a string.\<close>

datatype 'f jval = JNull | JNum 'f | JStr string

type_synonym 'f pdict = "string \<rightharpoonup> 'f jval"

type_synonym 'f results = "string \<rightharpoonup> 'f pdict"

type_synonym 'f response = "string \<rightharpoonup> (string \<rightharpoonup> 'f jval)"

datatype py_error = KeyError | IndexError | UpstreamError

section \<open>The upstream provider and the state of the process\<close>

text \<open>
  The provider is opaque and unreliable. Each of its three entry points is a function of
  the number of upstream calls made before (so the same question may get different answers
  at different moments) and of the argument; \<open>clock\<close> gives the successive readings of
  \<open>time.time()\<close>.

  \<^item> \<open>yf.download\<close> raises, returns an empty frame (\<open>data.empty\<close>), a frame with MultiIndex
    columns (for each symbol it covers, the column \<open>('Close', s)\<close>) or a frame with flat
    columns (its \<open>'Close'\<close> column, when it has one);
  \<^item> \<open>yf.Ticker(s).history\<close> raises, returns \<open>None\<close>, or a frame whose \<open>'Close'\<close> column
    is given (the empty list for an empty frame);
  \<^item> \<open>yf.Ticker(s).info\<close> raises or is a dictionary of strings.
\<close>

datatype 'f download_result =
    Download_Raises
  | Download_Empty
  | Download_Multi "(string \<times> 'f list) list"
  | Download_Flat "'f list option"

datatype 'f history_result = History_Raises | History_None | History_Close "'f list"

datatype info_result = Info_Raises | Info_Dict "(string \<times> string) list"

record 'f provider =
  yf_download :: "nat \<Rightarrow> string \<Rightarrow> 'f download_result"
  yf_history :: "nat \<Rightarrow> string \<Rightarrow> 'f history_result"
  yf_info :: "nat \<Rightarrow> string \<Rightarrow> info_result"
  clock :: "nat \<Rightarrow> rat"

datatype call = Download string | History string | Ticker_Info string

record cache_entry =
  info :: "string \<rightharpoonup> string"
  fetched_at :: rat

text \<open>
  The state: the module-level dictionary \<open>company_info_cache\<close>, the upstream calls made
  so far, in order, and the number of clock readings taken.
\<close>

record world =
  company_info_cache :: "string \<rightharpoonup> cache_entry"
  calls :: "call list"
  clock_reads :: nat

definition COMPANY_INFO_TTL :: rat where
  "COMPANY_INFO_TTL = 60 * 60"

definition MAX_TICKERS :: nat where
  "MAX_TICKERS = 200"

section \<open>Company information, cached\<close>

text \<open>Python's \<open>a or b\<close> on an optional string: \<open>None\<close> and the empty string are falsy.\<close>

fun py_or :: "string option \<Rightarrow> string \<Rightarrow> string" where
  "py_or None b = b"
| "py_or (Some a) b = (if a = [] then b else a)"

text \<open>
  \<^verbatim>\<open>
  def fetch_company_info(symbol):
      now = time.time()
      with company_info_lock:
          entry = company_info_cache.get(symbol)
          if entry and now - entry.get('fetched_at', 0) < COMPANY_INFO_TTL:
              return entry['info']
          try:
              t = yf.Ticker(symbol)
              info = {}
              info['name'] = info.get('name') or t.info.get('longName') or t.info.get('shortName') or symbol
              desc = t.info.get('longBusinessSummary') or t.info.get('sector') or ''
              info['description'] = desc
          except Exception:
              info = {'name': symbol, 'description': ''}
          company_info_cache[symbol] = {'info': info, 'fetched_at': now}
          return info
  \<close>
  Calls are taken one at a time, as the lock makes them. \<open>info.get('name')\<close> reads the
  dictionary created on the line before, so it is \<open>None\<close>.
\<close>

definition fetch_company_info ::
  "'f provider \<Rightarrow> string \<Rightarrow> world \<Rightarrow> (string \<rightharpoonup> string) \<times> world" where
  "fetch_company_info P symbol w =
     (let now = clock P (clock_reads w);
          w1 = w\<lparr>clock_reads := Suc (clock_reads w)\<rparr>;
          hit = (case company_info_cache w1 symbol of
                   None \<Rightarrow> None
                 | Some entry \<Rightarrow>
                     if now - fetched_at entry < COMPANY_INFO_TTL then Some (info entry)
                     else None)
      in case hit of
           Some i \<Rightarrow> (i, w1)
         | None \<Rightarrow>
             (let t_info = yf_info P (length (calls w1)) symbol;
                  w2 = w1\<lparr>calls := calls w1 @ [Ticker_Info symbol]\<rparr>;
                  i = (case t_info of
                         Info_Raises \<Rightarrow> [''name'' \<mapsto> symbol, ''description'' \<mapsto> '''']
                       | Info_Dict d \<Rightarrow>
                           [''name'' \<mapsto>
                              py_or None (py_or (map_of d ''longName'')
                                (py_or (map_of d ''shortName'') symbol)),
                            ''description'' \<mapsto>
                              py_or (map_of d ''longBusinessSummary'')
                                (py_or (map_of d ''sector'') '''')])
              in (i, w2\<lparr>company_info_cache :=
                          (company_info_cache w2)(symbol \<mapsto> \<lparr>info = i, fetched_at = now\<rparr>)\<rparr>)))"

section \<open>Latest prices\<close>

text \<open>
  The same four lines stand in each of the four places of \<open>get_latest_prices\<close> that
  turn a series of closes into a quote:
  \<^verbatim>\<open>
  latest = series.iloc[-1]
  prev = series.iloc[-2] if len(series) > 1 else latest
  change_pct = round(((latest - prev) / prev) * 100, 2) if prev != 0 else 0.0
  results[sym_map[s]] = {'price': round(float(latest), 4), 'change_pct': change_pct}
  \<close>
  \<open>iloc[-1]\<close> raises on an empty series.
\<close>

definition change_pct_of :: "'f numerics \<Rightarrow> 'f \<Rightarrow> 'f \<Rightarrow> 'f" where
  "change_pct_of N latest prev =
     (if f_ne0 N prev then f_round2 N (f_mul100 N (f_div N (f_sub N latest prev) prev))
      else f_zero N)"

definition quote_of_closes :: "'f numerics \<Rightarrow> 'f list \<Rightarrow> py_error + 'f pdict" where
  "quote_of_closes N series =
     (if series = [] then Inl IndexError
      else
        let latest = last series;
            prev = (if 1 < length series then series ! (length series - 2) else latest);
            change_pct = change_pct_of N latest prev
        in Inr [''price'' \<mapsto> JNum (f_round4 N latest), ''change_pct'' \<mapsto> JNum change_pct])"

definition null_quote :: "'f pdict" where
  "null_quote = [''price'' \<mapsto> JNull, ''change_pct'' \<mapsto> JNull]"

text \<open>\<open>results[sym_map[s]] = q\<close>: a \<open>KeyError\<close> when \<open>s\<close> is not a key of \<open>sym_map\<close>.\<close>

definition set_quote ::
  "(string \<rightharpoonup> string) \<Rightarrow> string \<Rightarrow> 'f pdict \<Rightarrow> 'f results
     \<Rightarrow> py_error + 'f results" where
  "set_quote sym_map s q results =
     (case sym_map s of None \<Rightarrow> Inl KeyError | Some k \<Rightarrow> Inr (results(k \<mapsto> q)))"

definition dropna :: "'f numerics \<Rightarrow> 'f list \<Rightarrow> 'f list" where
  "dropna N series = filter (\<lambda>x. \<not> f_isnan N x) series"

text \<open>The first loop: \<open>sym_map[s] = t.upper()\<close> and \<open>symbols.append(s)\<close> for each ticker.\<close>

fun build_sym_map :: "string list \<Rightarrow> (string \<rightharpoonup> string) \<Rightarrow> (string \<rightharpoonup> string)" where
  "build_sym_map [] sym_map = sym_map"
| "build_sym_map (t # ts) sym_map = build_sym_map ts (sym_map(to_symbol t \<mapsto> upper t))"

definition history_call ::
  "'f provider \<Rightarrow> string \<Rightarrow> world \<Rightarrow> 'f history_result \<times> world" where
  "history_call P s w =
     (yf_history P (length (calls w)) s, w\<lparr>calls := calls w @ [History s]\<rparr>)"

text \<open>
  The loop of the branch \<open>if data.empty\<close> (lines 77 to 87). Its \<open>try\<close> has no \<open>else\<close>
  for an empty history: the symbol then gets no entry. An exception inside the \<open>try\<close>
  is caught by the loop's own handler, which writes the null quote; an exception of the
  handler itself leaves the loop.
\<close>

fun fallback_on_empty ::
  "'f numerics \<Rightarrow> 'f provider \<Rightarrow> (string \<rightharpoonup> string) \<Rightarrow> string list \<Rightarrow> 'f results
     \<Rightarrow> world \<Rightarrow> (py_error + 'f results) \<times> world" where
  "fallback_on_empty N P sym_map [] results w = (Inr results, w)"
| "fallback_on_empty N P sym_map (s # ss) results w =
     (let (hist, w1) = history_call P s w;
          tried = (case hist of
                     History_Raises \<Rightarrow> Inl UpstreamError
                   | History_None \<Rightarrow> Inr results
                   | History_Close closes \<Rightarrow>
                       if closes \<noteq> [] then
                         (case quote_of_closes N closes of
                            Inl e \<Rightarrow> Inl e
                          | Inr q \<Rightarrow> set_quote sym_map s q results)
                       else Inr results);
          handled = (case tried of
                       Inr r \<Rightarrow> Inr r
                     | Inl e \<Rightarrow> set_quote sym_map s null_quote results)
      in case handled of
           Inl e \<Rightarrow> (Inl e, w1)
         | Inr r \<Rightarrow> fallback_on_empty N P sym_map ss r w1)"

text \<open>
  The loop of the outer handler (lines 118 to 130): as above, but an empty history
  writes the null quote.
\<close>

fun fallback_on_error ::
  "'f numerics \<Rightarrow> 'f provider \<Rightarrow> (string \<rightharpoonup> string) \<Rightarrow> string list \<Rightarrow> 'f results
     \<Rightarrow> world \<Rightarrow> (py_error + 'f results) \<times> world" where
  "fallback_on_error N P sym_map [] results w = (Inr results, w)"
| "fallback_on_error N P sym_map (s # ss) results w =
     (let (hist, w1) = history_call P s w;
          tried = (case hist of
                     History_Raises \<Rightarrow> Inl UpstreamError
                   | History_None \<Rightarrow> set_quote sym_map s null_quote results
                   | History_Close closes \<Rightarrow>
                       if closes \<noteq> [] then
                         (case quote_of_closes N closes of
                            Inl e \<Rightarrow> Inl e
                          | Inr q \<Rightarrow> set_quote sym_map s q results)
                       else set_quote sym_map s null_quote results);
          handled = (case tried of
                       Inr r \<Rightarrow> Inr r
                     | Inl e \<Rightarrow> set_quote sym_map s null_quote results)
      in case handled of
           Inl e \<Rightarrow> (Inl e, w1)
         | Inr r \<Rightarrow> fallback_on_error N P sym_map ss r w1)"

text \<open>The loop over a frame with MultiIndex columns (lines 92 to 103).\<close>

fun batch_multi ::
  "'f numerics \<Rightarrow> (string \<times> 'f list) list \<Rightarrow> (string \<rightharpoonup> string) \<Rightarrow> string list
     \<Rightarrow> 'f results \<Rightarrow> py_error + 'f results" where
  "batch_multi N cols sym_map [] results = Inr results"
| "batch_multi N cols sym_map (s # ss) results =
     (case (case map_of cols s of
              Some col \<Rightarrow>
                (let series = dropna N col
                 in if length series = 0 then set_quote sym_map s null_quote results
                    else (case quote_of_closes N series of
                            Inl e \<Rightarrow> Inl e
                          | Inr q \<Rightarrow> set_quote sym_map s q results))
            | None \<Rightarrow> set_quote sym_map s null_quote results) of
        Inl e \<Rightarrow> Inl e
      | Inr r \<Rightarrow> batch_multi N cols sym_map ss r)"

text \<open>A frame with flat columns (lines 106 to 113): the quote goes to \<open>symbols[0]\<close>.\<close>

definition batch_flat ::
  "'f numerics \<Rightarrow> 'f list option \<Rightarrow> (string \<rightharpoonup> string) \<Rightarrow> string list
     \<Rightarrow> py_error + 'f results" where
  "batch_flat N close sym_map symbols =
     (case close of
        None \<Rightarrow> Inl KeyError
      | Some col \<Rightarrow>
          (let series = dropna N col
           in case symbols of
                [] \<Rightarrow> Inl IndexError
              | s0 # _ \<Rightarrow>
                  if length series = 0 then set_quote sym_map s0 null_quote Map.empty
                  else (case quote_of_closes N series of
                          Inl e \<Rightarrow> Inl e
                        | Inr q \<Rightarrow> set_quote sym_map s0 q Map.empty)))"

text \<open>
  \<open>get_latest_prices\<close> (lines 56 to 131). Everything after the first loop stands in a
  \<open>try\<close> whose handler starts again from empty results with the per-symbol loop.
\<close>

definition get_latest_prices ::
  "'f numerics \<Rightarrow> 'f provider \<Rightarrow> string list \<Rightarrow> world
     \<Rightarrow> (py_error + 'f results) \<times> world" where
  "get_latest_prices N P tickers w =
     (if tickers = [] then (Inr Map.empty, w)
      else
        let sym_map = build_sym_map tickers Map.empty;
            symbols = map to_symbol tickers;
            data = yf_download P (length (calls w)) (join_space symbols);
            w1 = w\<lparr>calls := calls w @ [Download (join_space symbols)]\<rparr>;
            (tried, w2) =
              (case data of
                 Download_Raises \<Rightarrow> (Inl UpstreamError, w1)
               | Download_Empty \<Rightarrow> fallback_on_empty N P sym_map symbols Map.empty w1
               | Download_Multi cols \<Rightarrow> (batch_multi N cols sym_map symbols Map.empty, w1)
               | Download_Flat close \<Rightarrow> (batch_flat N close sym_map symbols, w1))
        in case tried of
             Inr results \<Rightarrow> (Inr results, w2)
           | Inl e \<Rightarrow> fallback_on_error N P sym_map symbols Map.empty w2)"

section \<open>The merged response\<close>

text \<open>
  The loop of \<open>prices\<close> (lines 159 to 169). \<open>dict.get(key, default)\<close> is a lookup with
  a default, and \<open>[:600]\<close> keeps the first 600 characters.
\<close>

fun attach_company_info ::
  "'f provider \<Rightarrow> 'f results \<Rightarrow> string list \<Rightarrow> 'f response \<Rightarrow> world
     \<Rightarrow> 'f response \<times> world" where
  "attach_company_info P price_data [] response w = (response, w)"
| "attach_company_info P price_data (t # ts) response w =
     (let sym = to_symbol t;
          (info', w1) = fetch_company_info P sym w;
          pdict = (case price_data t of Some d \<Rightarrow> d | None \<Rightarrow> null_quote);
          entry = [''symbol'' \<mapsto> JStr sym,
                   ''name'' \<mapsto> JStr (case info' ''name'' of Some n \<Rightarrow> n | None \<Rightarrow> t),
                   ''description'' \<mapsto>
                     JStr (take 600 (case info' ''description'' of Some d \<Rightarrow> d | None \<Rightarrow> '''')),
                   ''price'' \<mapsto> (case pdict ''price'' of Some v \<Rightarrow> v | None \<Rightarrow> JNull),
                   ''change_pct'' \<mapsto>
                     (case pdict ''change_pct'' of Some v \<Rightarrow> v | None \<Rightarrow> JNull)]
      in attach_company_info P price_data ts (response(t \<mapsto> entry)) w1)"

text \<open>
  \<open>prices\<close> from line 150 on. Lines 143 to 148 read the query string and produce the
  list \<open>tickers\<close>, the requested tickers; the model starts from that list.
\<close>

definition prices ::
  "'f numerics \<Rightarrow> 'f provider \<Rightarrow> string list \<Rightarrow> world
     \<Rightarrow> (py_error + 'f response) \<times> world" where
  "prices N P tickers0 w =
     (let tickers = (if MAX_TICKERS < length tickers0 then take MAX_TICKERS tickers0 else tickers0);
          (got, w1) = get_latest_prices N P tickers w
      in case got of
           Inl e \<Rightarrow> (Inl e, w1)
         | Inr price_data \<Rightarrow>
             (let (response, w2) = attach_company_info P price_data tickers Map.empty w1
              in (Inr response, w2)))"

section \<open>Example inputs\<close>

text \<open>
  An arithmetic for the worked examples only: a price is \<open>NaN\<close> or a finite number held
  as an exact rational, operations with \<open>NaN\<close> give \<open>NaN\<close>, \<open>NaN != 0\<close> is true, and
  rounding goes to the nearest multiple of the unit, a tie to the even neighbour. The
  examples use prices on which float64 arithmetic gives the same results; on other prices
  it can differ from float64 in the last digit, and no theorem is stated about them.
\<close>

datatype fval = NaN | Fin rat

fun exact_sub :: "fval \<Rightarrow> fval \<Rightarrow> fval" where
  "exact_sub (Fin a) (Fin b) = Fin (a - b)"
| "exact_sub _ _ = NaN"

fun exact_div :: "fval \<Rightarrow> fval \<Rightarrow> fval" where
  "exact_div (Fin a) (Fin b) = (if b = 0 then NaN else Fin (a / b))"
| "exact_div _ _ = NaN"

fun exact_mul100 :: "fval \<Rightarrow> fval" where
  "exact_mul100 (Fin a) = Fin (a * 100)"
| "exact_mul100 NaN = NaN"

definition round_half_even :: "rat \<Rightarrow> int" where
  "round_half_even x =
     (let f = \<lfloor>x\<rfloor>; d = x - of_int f
      in if d < 1 / 2 then f
         else if 1 / 2 < d then f + 1
         else if even f then f else f + 1)"

fun exact_round :: "nat \<Rightarrow> fval \<Rightarrow> fval" where
  "exact_round n NaN = NaN"
| "exact_round n (Fin x) = Fin (of_int (round_half_even (x * 10 ^ n)) / 10 ^ n)"

definition exact_numerics :: "fval numerics" where
  "exact_numerics =
     \<lparr>f_isnan = (\<lambda>x. x = NaN),
      f_ne0 = (\<lambda>x. x \<noteq> Fin 0),
      f_zero = Fin 0,
      f_sub = exact_sub,
      f_div = exact_div,
      f_mul100 = exact_mul100,
      f_round2 = exact_round 2,
      f_round4 = exact_round 4\<rparr>"

text \<open>
  A provider whose batch download covers \<open>TCS.NS\<close> only, whose per-symbol history has
  data for every symbol, and which knows the company behind \<open>TCS.NS\<close> alone; the state
  of a fresh process; and a state whose cache holds an entry fetched at time 1000.
\<close>

definition initial_world :: world where
  "initial_world = \<lparr>company_info_cache = Map.empty, calls = [], clock_reads = 0\<rparr>"

definition partial_provider :: "fval provider" where
  "partial_provider =
     \<lparr>yf_download = (\<lambda>n s. Download_Multi [(''TCS.NS'', [Fin 100, NaN, Fin 101])]),
      yf_history = (\<lambda>n s. History_Close [Fin 50, Fin 55]),
      yf_info = (\<lambda>n s. if s = ''TCS.NS''
                         then Info_Dict [(''longName'', ''Tata Consultancy''), (''sector'', ''IT'')]
                         else Info_Raises),
      clock = (\<lambda>n. 1000 + of_nat n)\<rparr>"

definition cached_world :: world where
  "cached_world =
     \<lparr>company_info_cache =
        [''TCS.NS'' \<mapsto> \<lparr>info = [''name'' \<mapsto> ''Tata'', ''description'' \<mapsto> ''IT''], fetched_at = 1000\<rparr>],
      calls = [], clock_reads = 0\<rparr>"

text \<open>A provider every call of which raises.\<close>

definition dead_provider :: "fval provider" where
  "dead_provider =
     \<lparr>yf_download = (\<lambda>n s. Download_Raises),
      yf_history = (\<lambda>n s. History_Raises),
      yf_info = (\<lambda>n s. Info_Raises),
      clock = (\<lambda>n. 1000 + of_nat n)\<rparr>"

text \<open>A provider with no prices and a business summary of 700 characters.\<close>

definition verbose_provider :: "fval provider" where
  "verbose_provider =
     \<lparr>yf_download = (\<lambda>n s. Download_Empty),
      yf_history = (\<lambda>n s. History_None),
      yf_info = (\<lambda>n s. Info_Dict [(''shortName'', ''Tata''),
                                     (''longBusinessSummary'', replicate 700 (CHR ''x''))]),
      clock = (\<lambda>n. 1000 + of_nat n)\<rparr>"




section \<open>Notions used in the proofs\<close>

text \<open>A string with no whitespace at either end.\<close>

definition trimmed :: "string \<Rightarrow> bool" where
  "trimmed s = (s = [] \<or> (\<not> is_space (hd s) \<and> \<not> is_space (last s)))"

text \<open>
  The quote of a non-empty series, the quote the handler's loop writes for a history, the
  quote the MultiIndex loop writes for a symbol, and the state after one more upstream call.
\<close>

definition quote :: "'f numerics \<Rightarrow> 'f list \<Rightarrow> 'f pdict" where
  "quote N series =
     [''price'' \<mapsto> JNum (f_round4 N (last series)),
      ''change_pct'' \<mapsto>
        JNum (change_pct_of N (last series)
               (if 1 < length series then series ! (length series - 2) else last series))]"

definition individual_quote :: "'f numerics \<Rightarrow> 'f history_result \<Rightarrow> 'f pdict" where
  "individual_quote N h =
     (case h of
        History_Close closes \<Rightarrow> if closes \<noteq> [] then quote N closes else null_quote
      | _ \<Rightarrow> null_quote)"

definition multi_quote ::
  "'f numerics \<Rightarrow> (string \<times> 'f list) list \<Rightarrow> string \<Rightarrow> 'f pdict" where
  "multi_quote N cols s =
     (case map_of cols s of
        None \<Rightarrow> null_quote
      | Some col \<Rightarrow> if dropna N col = [] then null_quote else quote N (dropna N col))"

definition logged :: "call \<Rightarrow> world \<Rightarrow> world" where
  "logged c w = w\<lparr>calls := calls w @ [c]\<rparr>"

text \<open>
  The entry the merge loop writes for a ticker, the fallback metadata record, a series of
  closes that the provider returned (after \<open>dropna\<close> for a batch column), and a
  quote computed from such a series.
\<close>

definition merged_entry ::
  "string \<Rightarrow> (string \<rightharpoonup> string) \<Rightarrow> 'f pdict \<Rightarrow> (string \<rightharpoonup> 'f jval)" where
  "merged_entry t i pdict =
     [''symbol'' \<mapsto> JStr (to_symbol t),
      ''name'' \<mapsto> JStr (case i ''name'' of Some n \<Rightarrow> n | None \<Rightarrow> t),
      ''description'' \<mapsto>
         JStr (take 600 (case i ''description'' of Some d \<Rightarrow> d | None \<Rightarrow> '''')),
      ''price'' \<mapsto> (case pdict ''price'' of Some v \<Rightarrow> v | None \<Rightarrow> JNull),
      ''change_pct'' \<mapsto> (case pdict ''change_pct'' of Some v \<Rightarrow> v | None \<Rightarrow> JNull)]"

definition fallback_info :: "string \<Rightarrow> (string \<rightharpoonup> string)" where
  "fallback_info symbol = [''name'' \<mapsto> symbol, ''description'' \<mapsto> '''']"

definition from_upstream :: "'f numerics \<Rightarrow> 'f provider \<Rightarrow> 'f list \<Rightarrow> bool" where
  "from_upstream N P closes =
     ((\<exists>n s. yf_history P n s = History_Close closes) \<or>
      (\<exists>n j cols s col. yf_download P n j = Download_Multi cols \<and> map_of cols s = Some col \<and>
                          closes = dropna N col) \<or>
      (\<exists>n j col. yf_download P n j = Download_Flat (Some col) \<and> closes = dropna N col))"

definition found :: "'f numerics \<Rightarrow> 'f provider \<Rightarrow> 'f pdict \<Rightarrow> bool" where
  "found N P d = (\<exists>closes. closes \<noteq> [] \<and> from_upstream N P closes \<and> d = quote N closes)"


section \<open>The symbol resolver: properties\<close>

lemma upper_char_idem: "upper_char (upper_char c) = upper_char c"
  by (auto simp: upper_char_def split: option.splits if_splits)

lemma upper_char_space: "is_space (upper_char c) = is_space c"
  by (auto simp: upper_char_def is_space_def split: option.splits if_splits)

lemma upper_idem: "upper (upper s) = upper s"
  by (simp add: upper_def upper_char_idem)




lemma strip_trimmed:
  assumes "trimmed s"
  shows "strip s = s"
proof -
  have a: "dropWhile is_space s = s"
    using assms by (auto simp: trimmed_def dropWhile_eq_self_iff)
  have b: "dropWhile is_space (rev s) = rev s"
    using assms by (auto simp: trimmed_def dropWhile_eq_self_iff hd_rev)
  show ?thesis by (simp add: strip_def a b)
qed

lemma trimmed_strip: "trimmed (strip s)"
proof (cases "strip s = []")
  case True
  then show ?thesis by (simp add: trimmed_def)
next
  case False
  define a where "a = dropWhile is_space s"
  define b where "b = dropWhile is_space (rev a)"
  have sb: "strip s = rev b" by (simp add: strip_def a_def b_def)
  have bne: "b \<noteq> []" using False sb by simp
  have hb: "\<not> is_space (hd b)" using bne unfolding b_def by (rule hd_dropWhile)
  have "rev a = takeWhile is_space (rev a) @ b" by (simp add: b_def)
  then have "a = rev b @ rev (takeWhile is_space (rev a))"
    by (metis rev_append rev_rev_ident)
  then have "hd a = hd (rev b)" using bne by (metis hd_append2 rev_is_Nil_conv)
  moreover have "a \<noteq> []" using bne b_def by auto
  then have "\<not> is_space (hd a)" unfolding a_def by (rule hd_dropWhile)
  ultimately have "\<not> is_space (hd (rev b))" by simp
  moreover have "last (rev b) = hd b" using bne by (simp add: last_rev)
  ultimately show ?thesis using hb sb by (simp add: trimmed_def)
qed

lemma trimmed_upper: "trimmed (upper s) = trimmed s"
  by (cases "s = []") (simp_all add: trimmed_def upper_def hd_map last_map upper_char_space)

lemma endswith_suffix: "endswith s suf = suffix suf s"
proof
  assume "endswith s suf"
  then have "s = take (length s - length suf) s @ suf"
    by (metis append_take_drop_id endswith_def)
  then show "suffix suf s" by (metis suffixI)
next
  assume "suffix suf s"
  then obtain p where "s = p @ suf" by (auto simp: suffix_def)
  then show "endswith s suf" by (simp add: endswith_def)
qed

lemma endswith_append: "endswith (a @ b) b"
  by (simp add: endswith_def)

lemma trimmed_append_NS: "trimmed u \<Longrightarrow> trimmed (u @ ''.NS'')"
  by (cases u) (auto simp: trimmed_def is_space_def)

lemma upper_NS: "upper (u @ ''.NS'') = upper u @ ''.NS''"
  by (simp add: upper_def upper_char_def)

lemma normal_fixed: "trimmed u \<Longrightarrow> upper u = u \<Longrightarrow> upper (strip u) = u"
  by (simp add: strip_trimmed)


lemmas string_eval = to_symbol_def upper_def strip_def is_space_def upper_char_def endswith_def

text \<open>
  C7. For every ticker string \<open>t\<close>, resolving twice is resolving once: the symbol resolver
  is idempotent, so resolving an already resolved symbol returns it unchanged.
\<close>

theorem to_symbol_idempotent: "to_symbol (to_symbol t) = to_symbol t"
proof -
  define u where "u = upper (strip t)"
  have tu: "trimmed u" by (simp add: u_def trimmed_upper trimmed_strip)
  have uu: "upper u = u" by (simp add: u_def upper_idem)
  show ?thesis
  proof (cases "endswith u ''.NS'' \<or> endswith u ''.BO''")
    case True
    then have r: "to_symbol t = u" by (simp add: to_symbol_def u_def)
    have "upper (strip u) = u" using tu uu by (rule normal_fixed)
    then have "to_symbol u = u" using True by (simp add: to_symbol_def)
    then show ?thesis by (simp add: r)
  next
    case False
    then have r: "to_symbol t = u @ ''.NS''" by (simp add: to_symbol_def u_def)
    have "trimmed (u @ ''.NS'')" using tu by (rule trimmed_append_NS)
    moreover have "upper (u @ ''.NS'') = u @ ''.NS''" by (simp add: upper_NS uu)
    ultimately have "upper (strip (u @ ''.NS'')) = u @ ''.NS''" by (rule normal_fixed)
    then have "to_symbol (u @ ''.NS'') = u @ ''.NS''"
      by (simp add: to_symbol_def endswith_append)
    then show ?thesis by (simp add: r)
  qed
qed

text \<open>
  C6, as stated, counts \<open>-USD\<close> among the recognised suffixes. The resolver does not:
  \<open>BTC-USD\<close> ends with \<open>-USD\<close> after trimming and uppercasing and still gets \<open>.NS\<close>
  appended.
\<close>

theorem to_symbol_usd_counterexample:
  "suffix ''-USD'' (upper (strip ''BTC-USD'')) \<and> to_symbol ''BTC-USD'' = ''BTC-USD.NS'' \<and>
   to_symbol ''BTC-USD'' \<noteq> upper (strip ''BTC-USD'') \<and> to_symbol ''BTC-USD'' \<noteq> ''BTC-USD''"
  by (simp add: string_eval endswith_suffix[symmetric])

text \<open>
  C6, amended. The recognised suffixes are \<open>.NS\<close> and \<open>.BO\<close> only. For every input
  whose trimmed, uppercased form ends with one of them, the resolver returns that trimmed,
  uppercased form unchanged; for every other input (a \<open>-USD\<close> symbol included) it appends
  \<open>.NS\<close> to the trimmed, uppercased form.
\<close>

theorem to_symbol_suffix_cases:
  "(suffix ''.NS'' (upper (strip t)) \<or> suffix ''.BO'' (upper (strip t)) \<longrightarrow>
      to_symbol t = upper (strip t)) \<and>
   (\<not> suffix ''.NS'' (upper (strip t)) \<and> \<not> suffix ''.BO'' (upper (strip t)) \<longrightarrow>
      to_symbol t = upper (strip t) @ ''.NS'')"
  by (simp add: to_symbol_def endswith_suffix)

theorem to_symbol_suffix_cases_witness:
  "suffix ''.BO'' (upper (strip '' reliance.bo '')) \<and> to_symbol '' reliance.bo '' = ''RELIANCE.BO'' \<and>
   \<not> suffix ''.NS'' (upper (strip ''BTC-USD'')) \<and> \<not> suffix ''.BO'' (upper (strip ''BTC-USD'')) \<and>
   to_symbol ''BTC-USD'' = ''BTC-USD.NS''"
proof -
  have a: "upper (strip '' reliance.bo '') = ''RELIANCE.BO''"
    by (simp add: upper_def strip_def is_space_def upper_char_def)
  have b: "upper (strip ''BTC-USD'') = ''BTC-USD''"
    by (simp add: upper_def strip_def is_space_def upper_char_def)
  have c: "suffix ''.BO'' ''RELIANCE.BO''"
    by (simp add: endswith_suffix[symmetric] endswith_def)
  have d: "\<not> suffix ''.NS'' ''BTC-USD'' \<and> \<not> suffix ''.BO'' ''BTC-USD''"
    by (simp add: endswith_suffix[symmetric] endswith_def)
  show ?thesis
    using to_symbol_suffix_cases[of "'' reliance.bo ''"] to_symbol_suffix_cases[of "''BTC-USD''"]
    by (simp add: a b c d)
qed

section \<open>The metadata cache: properties\<close>

text \<open>
  C5. For a cache entry fetched at time \<open>T\<close>: a request for that symbol at a time strictly
  before \<open>T + 3600\<close> returns the cached record, makes no upstream call and leaves the cache
  as it is; a request at or after \<open>T + 3600\<close> makes an upstream call for that symbol.
\<close>

theorem cache_ttl:
  assumes "company_info_cache w symbol = Some entry"
  shows "(clock P (clock_reads w) < fetched_at entry + 3600 \<longrightarrow>
            fst (fetch_company_info P symbol w) = info entry \<and>
            calls (snd (fetch_company_info P symbol w)) = calls w \<and>
            company_info_cache (snd (fetch_company_info P symbol w)) = company_info_cache w) \<and>
         (fetched_at entry + 3600 \<le> clock P (clock_reads w) \<longrightarrow>
            calls (snd (fetch_company_info P symbol w)) = calls w @ [Ticker_Info symbol])"
  using assms
  by (auto simp: fetch_company_info_def COMPANY_INFO_TTL_def Let_def split: info_result.splits)

theorem cache_ttl_witness:
  "company_info_cache cached_world ''TCS.NS'' =
     Some \<lparr>info = [''name'' \<mapsto> ''Tata'', ''description'' \<mapsto> ''IT''], fetched_at = 1000\<rparr> \<and>
   clock (partial_provider\<lparr>clock := \<lambda>n. 4599\<rparr>) (clock_reads cached_world) < 1000 + 3600 \<and>
   fst (fetch_company_info (partial_provider\<lparr>clock := \<lambda>n. 4599\<rparr>) ''TCS.NS'' cached_world) ''name'' = Some ''Tata'' \<and>
   calls (snd (fetch_company_info (partial_provider\<lparr>clock := \<lambda>n. 4599\<rparr>) ''TCS.NS'' cached_world)) = [] \<and>
   1000 + 3600 \<le> clock (partial_provider\<lparr>clock := \<lambda>n. 4600\<rparr>) (clock_reads cached_world) \<and>
   calls (snd (fetch_company_info (partial_provider\<lparr>clock := \<lambda>n. 4600\<rparr>) ''TCS.NS'' cached_world)) = [Ticker_Info ''TCS.NS'']"
proof -
  have e: "company_info_cache cached_world ''TCS.NS'' =
     Some \<lparr>info = [''name'' \<mapsto> ''Tata'', ''description'' \<mapsto> ''IT''], fetched_at = 1000\<rparr>"
    by (simp add: cached_world_def)
  show ?thesis
    using cache_ttl[OF e, of "partial_provider\<lparr>clock := \<lambda>n. 4599\<rparr>"]
          cache_ttl[OF e, of "partial_provider\<lparr>clock := \<lambda>n. 4600\<rparr>"]
    by (simp add: cached_world_def partial_provider_def)
qed

text \<open>
  C8. When no fresh entry is cached for a symbol, the record returned (fetched or fallback)
  is stored under the symbol with the time read at the start of the call, after exactly one
  upstream call; when that call raises, the record has the symbol as its name and the empty
  description; and a later request for the symbol, arriving before that time plus 3600
  while the entry is still the one stored, returns the same record with no upstream call.
\<close>

theorem failed_fetch_is_cached:
  assumes miss: "\<forall>entry. company_info_cache w symbol = Some entry \<longrightarrow>
                   COMPANY_INFO_TTL \<le> clock P (clock_reads w) - fetched_at entry"
      and res: "fetch_company_info P symbol w = (i, w')"
  shows "(yf_info P (length (calls w)) symbol = Info_Raises \<longrightarrow>
            i ''name'' = Some symbol \<and> i ''description'' = Some '''' \<and>
            dom i = {''name'', ''description''}) \<and>
         calls w' = calls w @ [Ticker_Info symbol] \<and>
         company_info_cache w' symbol = Some \<lparr>info = i, fetched_at = clock P (clock_reads w)\<rparr> \<and>
         (\<forall>w2. company_info_cache w2 symbol = company_info_cache w' symbol \<and>
               clock P (clock_reads w2) < clock P (clock_reads w) + 3600 \<longrightarrow>
               fst (fetch_company_info P symbol w2) = i \<and>
               calls (snd (fetch_company_info P symbol w2)) = calls w2)"
proof -
  have nohit: "(case company_info_cache w symbol of None \<Rightarrow> None
                | Some entry \<Rightarrow> if clock P (clock_reads w) - fetched_at entry < COMPANY_INFO_TTL
                                then Some (info entry) else None) = None"
    using miss by (auto split: option.splits)
  have a: "yf_info P (length (calls w)) symbol = Info_Raises \<longrightarrow>
            i ''name'' = Some symbol \<and> i ''description'' = Some '''' \<and>
            dom i = {''name'', ''description''}"
    using res nohit by (auto simp: fetch_company_info_def Let_def split: if_splits)
  have b: "calls w' = calls w @ [Ticker_Info symbol]"
    using res nohit by (auto simp: fetch_company_info_def Let_def)
  have c: "company_info_cache w' symbol = Some \<lparr>info = i, fetched_at = clock P (clock_reads w)\<rparr>"
    using res nohit by (auto simp: fetch_company_info_def Let_def)
  have d: "fst (fetch_company_info P symbol w2) = i \<and>
           calls (snd (fetch_company_info P symbol w2)) = calls w2"
    if "company_info_cache w2 symbol = company_info_cache w' symbol"
       "clock P (clock_reads w2) < clock P (clock_reads w) + 3600" for w2
    using that c by (simp add: fetch_company_info_def Let_def COMPANY_INFO_TTL_def)
  show ?thesis using a b c d by blast
qed

theorem failed_fetch_is_cached_witness:
  "yf_info partial_provider (length (calls initial_world)) ''FAKE123.NS'' = Info_Raises \<and>
   fst (fetch_company_info partial_provider ''FAKE123.NS'' initial_world) ''name'' = Some ''FAKE123.NS'' \<and>
   fst (fetch_company_info partial_provider ''FAKE123.NS'' initial_world) ''description'' = Some '''' \<and>
   calls (snd (fetch_company_info partial_provider ''FAKE123.NS'' initial_world)) = [Ticker_Info ''FAKE123.NS''] \<and>
   clock partial_provider (clock_reads (snd (fetch_company_info partial_provider ''FAKE123.NS'' initial_world)))
     < clock partial_provider (clock_reads initial_world) + 3600 \<and>
   calls (snd (fetch_company_info partial_provider ''FAKE123.NS''
                 (snd (fetch_company_info partial_provider ''FAKE123.NS'' initial_world)))) =
     [Ticker_Info ''FAKE123.NS'']"
proof -
  have miss: "\<forall>entry. company_info_cache initial_world ''FAKE123.NS'' = Some entry \<longrightarrow>
      COMPANY_INFO_TTL \<le> clock partial_provider (clock_reads initial_world) - fetched_at entry"
    by (simp add: initial_world_def)
  have res: "fetch_company_info partial_provider ''FAKE123.NS'' initial_world =
      (fst (fetch_company_info partial_provider ''FAKE123.NS'' initial_world),
       snd (fetch_company_info partial_provider ''FAKE123.NS'' initial_world))"
    by simp
  have fails: "yf_info partial_provider (length (calls initial_world)) ''FAKE123.NS'' = Info_Raises"
    by (simp add: partial_provider_def)
  have soon: "clock partial_provider
      (clock_reads (snd (fetch_company_info partial_provider ''FAKE123.NS'' initial_world)))
     < clock partial_provider (clock_reads initial_world) + 3600"
    by (simp add: fetch_company_info_def partial_provider_def initial_world_def Let_def)
  have c0: "calls initial_world = []" by (simp add: initial_world_def)
  note th = failed_fetch_is_cached[OF miss res]
  have again: "calls (snd (fetch_company_info partial_provider ''FAKE123.NS''
                 (snd (fetch_company_info partial_provider ''FAKE123.NS'' initial_world)))) =
               calls (snd (fetch_company_info partial_provider ''FAKE123.NS'' initial_world))"
    using th soon by blast
  show ?thesis
    using th fails soon again by (simp add: c0)
qed

section \<open>Latest prices: the loops\<close>

lemma dom_build_sym_map: "dom (build_sym_map ts m) = dom m \<union> to_symbol ` set ts"
  by (induction ts arbitrary: m) auto

lemma symbols_covered: "set (map to_symbol tickers) \<subseteq> dom (build_sym_map tickers Map.empty)"
  by (simp add: dom_build_sym_map)

lemma quote_of_closes_eq:
  "quote_of_closes N closes = (if closes = [] then Inl IndexError else Inr (quote N closes))"
  by (simp add: quote_of_closes_def quote_def Let_def)

lemma fallback_on_error_step:
  assumes "sym_map s = Some k"
  shows "fallback_on_error N P sym_map (s # ss) results w =
         fallback_on_error N P sym_map ss
           (results(k \<mapsto> individual_quote N (yf_history P (length (calls w)) s)))
           (logged (History s) w)"
  using assms
  by (simp add: history_call_def set_quote_def quote_of_closes_eq individual_quote_def logged_def
      split: history_result.splits)

lemma fallback_on_empty_step:
  assumes "sym_map s = Some k"
  shows "fallback_on_empty N P sym_map (s # ss) results w =
         fallback_on_empty N P sym_map ss
           (case yf_history P (length (calls w)) s of
              History_Raises \<Rightarrow> results(k \<mapsto> null_quote)
            | History_None \<Rightarrow> results
            | History_Close closes \<Rightarrow>
                if closes \<noteq> [] then results(k \<mapsto> quote N closes) else results)
           (logged (History s) w)"
  using assms
  by (simp add: history_call_def set_quote_def quote_of_closes_eq logged_def
      split: history_result.splits)

lemma batch_multi_step:
  assumes "sym_map s = Some k"
  shows "batch_multi N cols sym_map (s # ss) results =
         batch_multi N cols sym_map ss (results(k \<mapsto> multi_quote N cols s))"
  using assms
  by (simp add: set_quote_def quote_of_closes_eq multi_quote_def Let_def split: option.splits)

lemma fallback_on_error_total:
  "set ss \<subseteq> dom sym_map \<Longrightarrow>
   \<exists>r w'. fallback_on_error N P sym_map ss results w = (Inr r, w') \<and>
          calls w' = calls w @ map History ss \<and>
          company_info_cache w' = company_info_cache w \<and> clock_reads w' = clock_reads w"
proof (induction ss arbitrary: results w)
  case Nil
  then show ?case by simp
next
  case (Cons s ss)
  then obtain k where k: "sym_map s = Some k" and ss: "set ss \<subseteq> dom sym_map" by auto
  show ?case
    unfolding fallback_on_error_step[where sym_map = sym_map and s = s, OF k]
    using Cons.IH[OF ss, of _ "logged (History s) w"]
    by (simp add: logged_def)
qed

lemma fallback_on_empty_total:
  "set ss \<subseteq> dom sym_map \<Longrightarrow>
   \<exists>r w'. fallback_on_empty N P sym_map ss results w = (Inr r, w') \<and>
          calls w' = calls w @ map History ss \<and>
          company_info_cache w' = company_info_cache w \<and> clock_reads w' = clock_reads w"
proof (induction ss arbitrary: results w)
  case Nil
  then show ?case by simp
next
  case (Cons s ss)
  then obtain k where k: "sym_map s = Some k" and ss: "set ss \<subseteq> dom sym_map" by auto
  show ?case
    unfolding fallback_on_empty_step[where sym_map = sym_map and s = s, OF k]
    using Cons.IH[OF ss, of _ "logged (History s) w"]
    by (simp add: logged_def)
qed

lemma batch_multi_total:
  "set ss \<subseteq> dom sym_map \<Longrightarrow> \<exists>r. batch_multi N cols sym_map ss results = Inr r"
proof (induction ss arbitrary: results)
  case Nil
  then show ?case by simp
next
  case (Cons s ss)
  then obtain k where k: "sym_map s = Some k" and ss: "set ss \<subseteq> dom sym_map" by auto
  show ?case
    unfolding batch_multi_step[where sym_map = sym_map and s = s, OF k]
    using Cons.IH[OF ss] by simp
qed

text \<open>The four outcomes of the batch download.\<close>

lemma get_latest_prices_raises:
  assumes "tickers \<noteq> []"
      and "yf_download P (length (calls w)) (join_space (map to_symbol tickers)) = Download_Raises"
  shows "get_latest_prices N P tickers w =
         fallback_on_error N P (build_sym_map tickers Map.empty) (map to_symbol tickers) Map.empty
           (logged (Download (join_space (map to_symbol tickers))) w)"
  using assms by (simp add: get_latest_prices_def logged_def Let_def)

lemma get_latest_prices_empty:
  assumes "tickers \<noteq> []"
      and "yf_download P (length (calls w)) (join_space (map to_symbol tickers)) = Download_Empty"
  shows "get_latest_prices N P tickers w =
         fallback_on_empty N P (build_sym_map tickers Map.empty) (map to_symbol tickers) Map.empty
           (logged (Download (join_space (map to_symbol tickers))) w)"
proof -
  obtain r w' where "fallback_on_empty N P (build_sym_map tickers Map.empty) (map to_symbol tickers)
      Map.empty (logged (Download (join_space (map to_symbol tickers))) w) = (Inr r, w')"
    using fallback_on_empty_total[OF symbols_covered] by blast
  then show ?thesis
    using assms by (simp add: get_latest_prices_def logged_def Let_def)
qed

lemma get_latest_prices_multi:
  assumes "tickers \<noteq> []"
      and "yf_download P (length (calls w)) (join_space (map to_symbol tickers)) = Download_Multi cols"
  shows "get_latest_prices N P tickers w =
         (batch_multi N cols (build_sym_map tickers Map.empty) (map to_symbol tickers) Map.empty,
          logged (Download (join_space (map to_symbol tickers))) w)"
proof -
  obtain r where "batch_multi N cols (build_sym_map tickers Map.empty) (map to_symbol tickers)
      Map.empty = Inr r"
    using batch_multi_total[OF symbols_covered] by blast
  then show ?thesis
    using assms by (simp add: get_latest_prices_def logged_def Let_def)
qed

lemma get_latest_prices_flat:
  assumes "tickers \<noteq> []"
      and "yf_download P (length (calls w)) (join_space (map to_symbol tickers)) = Download_Flat close"
  shows "get_latest_prices N P tickers w =
         (case batch_flat N close (build_sym_map tickers Map.empty) (map to_symbol tickers) of
            Inr r \<Rightarrow> (Inr r, logged (Download (join_space (map to_symbol tickers))) w)
          | Inl e \<Rightarrow>
              fallback_on_error N P (build_sym_map tickers Map.empty) (map to_symbol tickers)
                Map.empty (logged (Download (join_space (map to_symbol tickers))) w))"
  using assms by (simp add: get_latest_prices_def logged_def Let_def split: sum.splits)

lemma get_latest_prices_total:
  "\<exists>r w'. get_latest_prices N P tickers w = (Inr r, w') \<and>
          company_info_cache w' = company_info_cache w \<and> clock_reads w' = clock_reads w"
proof (cases "tickers = []")
  case True
  then show ?thesis by (simp add: get_latest_prices_def)
next
  case False
  note cov = symbols_covered[of tickers]
  show ?thesis
  proof (cases "yf_download P (length (calls w)) (join_space (map to_symbol tickers))")
    case Download_Raises
    show ?thesis
      using fallback_on_error_total[OF cov, of N P Map.empty "logged (Download (join_space (map to_symbol tickers))) w"]
      by (auto simp: get_latest_prices_raises[OF False Download_Raises] logged_def)
  next
    case Download_Empty
    show ?thesis
      using fallback_on_empty_total[OF cov, of N P Map.empty "logged (Download (join_space (map to_symbol tickers))) w"]
      by (auto simp: get_latest_prices_empty[OF False Download_Empty] logged_def)
  next
    case (Download_Multi cols)
    show ?thesis
      using batch_multi_total[OF cov, of N cols Map.empty]
      by (auto simp: get_latest_prices_multi[OF False Download_Multi] logged_def)
  next
    case (Download_Flat close)
    show ?thesis
      using fallback_on_error_total[OF cov, of N P Map.empty "logged (Download (join_space (map to_symbol tickers))) w"]
      by (auto simp: get_latest_prices_flat[OF False Download_Flat] logged_def split: sum.splits)
  qed
qed

text \<open>
  C10. For the empty ticker list the price fetch returns the empty mapping and leaves the
  state as it is (no upstream call), and the merged response is the empty mapping, with no
  error raised and the state unchanged.
\<close>

theorem empty_ticker_list:
  "get_latest_prices N P [] w = (Inr Map.empty, w) \<and> prices N P [] w = (Inr Map.empty, w)"
  by (simp add: get_latest_prices_def prices_def MAX_TICKERS_def)

section \<open>The merged response: properties\<close>

lemma attach_company_info_step:
  "attach_company_info P price_data (t # ts) response w =
   attach_company_info P price_data ts
     (response(t \<mapsto> merged_entry t (fst (fetch_company_info P (to_symbol t) w))
                      (case price_data t of Some d \<Rightarrow> d | None \<Rightarrow> null_quote)))
     (snd (fetch_company_info P (to_symbol t) w))"
  by (simp add: merged_entry_def Let_def case_prod_beta)

lemma dom_attach_company_info:
  "dom (fst (attach_company_info P price_data ts response w)) = dom response \<union> set ts"
proof (induction ts arbitrary: response w)
  case Nil
  then show ?case by simp
next
  case (Cons t ts)
  have "dom (fst (attach_company_info P price_data (t # ts) response w)) =
        dom (response(t \<mapsto> merged_entry t (fst (fetch_company_info P (to_symbol t) w))
                      (case price_data t of Some d \<Rightarrow> d | None \<Rightarrow> null_quote))) \<union> set ts"
    by (subst attach_company_info_step) (rule Cons.IH)
  then show ?case by simp
qed

lemma attach_company_info_entries:
  assumes "fst (attach_company_info P price_data ts response w) t = Some e"
  shows "response t = Some e \<or>
         (t \<in> set ts \<and>
          (\<exists>i. e = merged_entry t i (case price_data t of Some d \<Rightarrow> d | None \<Rightarrow> null_quote)))"
  using assms
proof (induction ts arbitrary: response w)
  case Nil
  then show ?case by simp
next
  case (Cons u ts)
  from Cons.prems[unfolded attach_company_info_step] Cons.IH
  have "(response(u \<mapsto> merged_entry u (fst (fetch_company_info P (to_symbol u) w))
                      (case price_data u of Some d \<Rightarrow> d | None \<Rightarrow> null_quote))) t = Some e \<or>
        (t \<in> set ts \<and>
          (\<exists>i. e = merged_entry t i (case price_data t of Some d \<Rightarrow> d | None \<Rightarrow> null_quote)))"
    by blast
  then show ?case by (auto split: if_splits)
qed

lemma dom_merged_entry:
  "dom (merged_entry t i pdict) = {''symbol'', ''name'', ''description'', ''price'', ''change_pct''}"
  by (auto simp: merged_entry_def split: if_splits)

lemma merged_entry_symbol: "merged_entry t i pdict ''symbol'' = Some (JStr (to_symbol t))"
  by (simp add: merged_entry_def)

lemma merged_entry_description:
  "\<exists>d. merged_entry t i pdict ''description'' = Some (JStr d) \<and> length d \<le> 600"
  by (simp add: merged_entry_def)

lemma merged_entry_price:
  "merged_entry t i pdict ''price'' = Some (case pdict ''price'' of Some v \<Rightarrow> v | None \<Rightarrow> JNull) \<and>
   merged_entry t i pdict ''change_pct'' = Some (case pdict ''change_pct'' of Some v \<Rightarrow> v | None \<Rightarrow> JNull)"
  by (simp add: merged_entry_def)

lemma truncated: "(if MAX_TICKERS < length ts then take MAX_TICKERS ts else ts) = take MAX_TICKERS ts"
  by simp

lemma prices_eq:
  assumes "get_latest_prices N P (take MAX_TICKERS tickers) w = (Inr price_data, w1)"
  shows "prices N P tickers w =
         (Inr (fst (attach_company_info P price_data (take MAX_TICKERS tickers) Map.empty w1)),
          snd (attach_company_info P price_data (take MAX_TICKERS tickers) Map.empty w1))"
  using assms by (simp add: prices_def truncated case_prod_beta Let_def del: take_all_iff)

lemma prices_total:
  "\<exists>price_data w1.
     get_latest_prices N P (take MAX_TICKERS tickers) w = (Inr price_data, w1) \<and>
     company_info_cache w1 = company_info_cache w \<and>
     prices N P tickers w =
       (Inr (fst (attach_company_info P price_data (take MAX_TICKERS tickers) Map.empty w1)),
        snd (attach_company_info P price_data (take MAX_TICKERS tickers) Map.empty w1))"
proof -
  obtain price_data w1 where
    g: "get_latest_prices N P (take MAX_TICKERS tickers) w = (Inr price_data, w1)" and
    c: "company_info_cache w1 = company_info_cache w"
    using get_latest_prices_total by blast
  show ?thesis using g c prices_eq[OF g] by blast
qed

text \<open>
  C3. For every requested ticker list the response is returned without error and its key
  set is exactly the set of the first 200 tickers of the list, in input order (the whole
  list when it has at most 200): no ticker is missing and there is no extra key.
\<close>

theorem response_keys:
  "\<exists>response w'. prices N P tickers w = (Inr response, w') \<and> dom response = set (take 200 tickers)"
proof -
  obtain price_data w1 where
    "prices N P tickers w =
       (Inr (fst (attach_company_info P price_data (take MAX_TICKERS tickers) Map.empty w1)),
        snd (attach_company_info P price_data (take MAX_TICKERS tickers) Map.empty w1))"
    using prices_total by blast
  then show ?thesis
    by (simp add: dom_attach_company_info MAX_TICKERS_def)
qed

lemma prices_entries:
  assumes "prices N P tickers w = (Inr response, w')"
  shows "dom response = set (take MAX_TICKERS tickers) \<and>
         (\<forall>t e. response t = Some e \<longrightarrow> (\<exists>i pdict. e = merged_entry t i pdict))"
proof -
  obtain price_data w1 where
    "prices N P tickers w =
       (Inr (fst (attach_company_info P price_data (take MAX_TICKERS tickers) Map.empty w1)),
        snd (attach_company_info P price_data (take MAX_TICKERS tickers) Map.empty w1))"
    using prices_total by blast
  then have r: "response =
      fst (attach_company_info P price_data (take MAX_TICKERS tickers) Map.empty w1)"
    using assms by simp
  have "\<exists>i pdict. e = merged_entry t i pdict" if "response t = Some e" for t e
    using attach_company_info_entries[of P price_data "take MAX_TICKERS tickers" Map.empty w1 t e]
      that r by auto
  then show ?thesis by (simp add: r dom_attach_company_info)
qed

text \<open>
  C9. In every response, the description of every entry is a string of at most 600
  characters.
\<close>

theorem description_truncated:
  assumes "prices N P tickers w = (Inr response, w')" and "response t = Some e"
  shows "\<exists>d. e ''description'' = Some (JStr d) \<and> length d \<le> 600"
proof -
  obtain i pdict where "e = merged_entry t i pdict"
    using prices_entries[OF assms(1)] assms(2) by blast
  then show ?thesis by (simp add: merged_entry_description)
qed

section \<open>Quotes come from closes\<close>

lemma found_multi:
  assumes "yf_download P n j = Download_Multi cols" "map_of cols s = Some col" "dropna N col \<noteq> []"
  shows "found N P (quote N (dropna N col))"
  unfolding found_def from_upstream_def using assms by blast

lemma found_flat:
  assumes "yf_download P n j = Download_Flat (Some col)" "dropna N col \<noteq> []"
  shows "found N P (quote N (dropna N col))"
  unfolding found_def from_upstream_def using assms by blast

lemma individual_quote_cases:
  "individual_quote N (yf_history P n s) = null_quote \<or> found N P (individual_quote N (yf_history P n s))"
  by (cases "yf_history P n s") (auto simp: individual_quote_def found_def from_upstream_def)

lemma fallback_on_error_entries:
  assumes "set ss \<subseteq> dom sym_map"
      and "fallback_on_error N P sym_map ss results w = (Inr r, w')"
      and "r k = Some d"
  shows "results k = Some d \<or> d = null_quote \<or> found N P d"
  using assms
proof (induction ss arbitrary: results w)
  case Nil
  then show ?case by simp
next
  case (Cons s ss)
  then obtain k1 where k1: "sym_map s = Some k1" and ss: "set ss \<subseteq> dom sym_map" by auto
  define v where "v = individual_quote N (yf_history P (length (calls w)) s)"
  have run: "fallback_on_error N P sym_map ss (results(k1 \<mapsto> v)) (logged (History s) w) = (Inr r, w')"
    using Cons.prems(2) by (simp only: fallback_on_error_step[where sym_map = sym_map and s = s, OF k1] v_def)
  have "(results(k1 \<mapsto> v)) k = Some d \<or> d = null_quote \<or> found N P d"
    using Cons.IH[OF ss run Cons.prems(3)] .
  moreover have "v = null_quote \<or> found N P v"
    unfolding v_def by (rule individual_quote_cases)
  ultimately show ?case by (auto split: if_splits)
qed

lemma fallback_on_empty_entries:
  assumes "set ss \<subseteq> dom sym_map"
      and "fallback_on_empty N P sym_map ss results w = (Inr r, w')"
      and "r k = Some d"
  shows "results k = Some d \<or> d = null_quote \<or> found N P d"
  using assms
proof (induction ss arbitrary: results w)
  case Nil
  then show ?case by simp
next
  case (Cons s ss)
  then obtain k1 where k1: "sym_map s = Some k1" and ss: "set ss \<subseteq> dom sym_map" by auto
  define h where "h = yf_history P (length (calls w)) s"
  define results1 where "results1 =
     (case h of
        History_Raises \<Rightarrow> results(k1 \<mapsto> null_quote)
      | History_None \<Rightarrow> results
      | History_Close closes \<Rightarrow> if closes \<noteq> [] then results(k1 \<mapsto> quote N closes) else results)"
  have run: "fallback_on_empty N P sym_map ss results1 (logged (History s) w) = (Inr r, w')"
    using Cons.prems(2)
    by (simp only: fallback_on_empty_step[where sym_map = sym_map and s = s, OF k1] results1_def h_def)
  have ih: "results1 k = Some d \<or> d = null_quote \<or> found N P d"
    using Cons.IH[OF ss run Cons.prems(3)] .
  have "results k = Some d \<or> d = null_quote \<or> found N P d" if "results1 k = Some d"
    using that unfolding results1_def
    by (cases h) (auto simp: found_def from_upstream_def h_def split: if_splits)
  then show ?case using ih by blast
qed

lemma multi_quote_cases: "multi_quote N cols s = null_quote \<or>
   (\<exists>col. map_of cols s = Some col \<and> dropna N col \<noteq> [] \<and> multi_quote N cols s = quote N (dropna N col))"
  by (auto simp: multi_quote_def split: option.splits)

lemma batch_multi_entries:
  assumes "set ss \<subseteq> dom sym_map"
      and "batch_multi N cols sym_map ss results = Inr r"
      and "r k = Some d"
  shows "results k = Some d \<or> (\<exists>s. d = multi_quote N cols s)"
  using assms
proof (induction ss arbitrary: results)
  case Nil
  then show ?case by simp
next
  case (Cons s ss)
  then obtain k1 where k1: "sym_map s = Some k1" and ss: "set ss \<subseteq> dom sym_map" by auto
  have run: "batch_multi N cols sym_map ss (results(k1 \<mapsto> multi_quote N cols s)) = Inr r"
    using Cons.prems(2)
    by (simp only: batch_multi_step[where sym_map = sym_map and s = s, OF k1])
  have "(results(k1 \<mapsto> multi_quote N cols s)) k = Some d \<or> (\<exists>s. d = multi_quote N cols s)"
    using Cons.IH[OF ss run Cons.prems(3)] .
  then show ?case by (auto split: if_splits)
qed

lemma batch_flat_entries:
  assumes "batch_flat N close sym_map symbols = Inr r" and "r k = Some d"
  shows "d = null_quote \<or>
         (\<exists>col. close = Some col \<and> dropna N col \<noteq> [] \<and> d = quote N (dropna N col))"
  using assms
  by (auto simp: batch_flat_def set_quote_def quote_of_closes_eq Let_def
      split: option.splits list.splits if_splits)

lemma get_latest_prices_entries:
  assumes run: "get_latest_prices N P tickers w = (Inr r, w')" and k: "r k = Some d"
  shows "d = null_quote \<or> found N P d"
proof (cases "tickers = []")
  case True
  then show ?thesis using run k by (auto simp: get_latest_prices_def)
next
  case False
  note cov = symbols_covered[of tickers]
  let ?j = "join_space (map to_symbol tickers)"
  show ?thesis
  proof (cases "yf_download P (length (calls w)) ?j")
    case Download_Raises
    from run have "fallback_on_error N P (build_sym_map tickers Map.empty) (map to_symbol tickers)
        Map.empty (logged (Download ?j) w) = (Inr r, w')"
      by (simp only: get_latest_prices_raises[OF False Download_Raises])
    from fallback_on_error_entries[OF cov this k] show ?thesis by simp
  next
    case Download_Empty
    from run have "fallback_on_empty N P (build_sym_map tickers Map.empty) (map to_symbol tickers)
        Map.empty (logged (Download ?j) w) = (Inr r, w')"
      by (simp only: get_latest_prices_empty[OF False Download_Empty])
    from fallback_on_empty_entries[OF cov this k] show ?thesis by simp
  next
    case (Download_Multi cols)
    from run have "batch_multi N cols (build_sym_map tickers Map.empty) (map to_symbol tickers)
        Map.empty = Inr r"
      by (simp add: get_latest_prices_multi[OF False Download_Multi])
    from batch_multi_entries[OF cov this k] obtain s where "d = multi_quote N cols s" by auto
    then show ?thesis
      using multi_quote_cases[of N cols s] found_multi[OF Download_Multi] by auto
  next
    case (Download_Flat close)
    show ?thesis
    proof (cases "batch_flat N close (build_sym_map tickers Map.empty) (map to_symbol tickers)")
      case (Inr r0)
      then have "r0 = r" using run
        by (simp add: get_latest_prices_flat[OF False Download_Flat])
      from batch_flat_entries[OF Inr[unfolded this] k] show ?thesis
        using found_flat[where N = N and P = P] Download_Flat by auto
    next
      case (Inl e)
      from run have "fallback_on_error N P (build_sym_map tickers Map.empty) (map to_symbol tickers)
          Map.empty (logged (Download ?j) w) = (Inr r, w')"
        by (simp add: get_latest_prices_flat[OF False Download_Flat] Inl)
      from fallback_on_error_entries[OF cov this k] show ?thesis by simp
    qed
  qed
qed

lemma null_quote_price: "null_quote ''price'' = Some JNull \<and> null_quote ''change_pct'' = Some JNull"
  by (simp add: null_quote_def)

lemmas price_eval = get_latest_prices_def set_quote_def quote_of_closes_def dropna_def
  null_quote_def change_pct_of_def round_half_even_def history_call_def batch_flat_def Let_def
  exact_numerics_def

section \<open>No exception reaches the caller\<close>

lemma fetch_company_info_dead:
  assumes dead: "\<forall>n s. yf_info P n s = Info_Raises"
      and inv: "\<forall>s e. company_info_cache w s = Some e \<longrightarrow> info e = fallback_info s"
  shows "fst (fetch_company_info P symbol w) = fallback_info symbol \<and>
         (\<forall>s e. company_info_cache (snd (fetch_company_info P symbol w)) s = Some e \<longrightarrow>
                info e = fallback_info s)"
  using assms
  by (auto simp: fetch_company_info_def Let_def fallback_info_def split: option.splits)

lemma attach_company_info_dead:
  assumes dead: "\<forall>n s. yf_info P n s = Info_Raises"
      and inv: "\<forall>s e. company_info_cache w s = Some e \<longrightarrow> info e = fallback_info s"
      and e: "fst (attach_company_info P price_data ts response w) t = Some e"
  shows "response t = Some e \<or>
         (t \<in> set ts \<and>
          e = merged_entry t (fallback_info (to_symbol t))
                (case price_data t of Some d \<Rightarrow> d | None \<Rightarrow> null_quote))"
  using inv e
proof (induction ts arbitrary: response w)
  case Nil
  then show ?case by simp
next
  case (Cons u ts)
  note f = fetch_company_info_dead[OF dead Cons.prems(1), of "to_symbol u"]
  have inv': "\<forall>s e. company_info_cache (snd (fetch_company_info P (to_symbol u) w)) s = Some e \<longrightarrow>
                info e = fallback_info s"
    using f by blast
  have run: "fst (attach_company_info P price_data ts
                (response(u \<mapsto> merged_entry u (fallback_info (to_symbol u))
                      (case price_data u of Some d \<Rightarrow> d | None \<Rightarrow> null_quote)))
                (snd (fetch_company_info P (to_symbol u) w))) t = Some e"
    using Cons.prems(2)[unfolded attach_company_info_step] f by simp
  from Cons.IH[OF inv' run] show ?case by (auto split: if_splits)
qed

lemma merged_entry_fallback:
  "merged_entry t (fallback_info s) pdict ''name'' = Some (JStr s) \<and>
   merged_entry t (fallback_info s) pdict ''description'' = Some (JStr '''')"
  by (simp add: merged_entry_def fallback_info_def)

lemma not_found_dead:
  assumes "\<forall>n s. yf_download P n s = Download_Raises" "\<forall>n s. yf_history P n s = History_Raises"
  shows "\<not> found N P d"
  using assms by (simp add: found_def from_upstream_def)

text \<open>
  C2. For every ticker list, every provider and every state, the merged response is
  returned without error, and every requested ticker (up to the cap) has an entry whose
  keys are exactly symbol, name, description, price and change_pct. When every price call
  raises, the price fields are null; when every metadata call raises (the cache being
  empty at the start), name is the resolved symbol and description is empty.
\<close>

theorem prices_never_raises:
  "\<exists>response w'.
     prices N P tickers w = (Inr response, w') \<and>
     (\<forall>t \<in> set (take 200 tickers). \<exists>e.
         response t = Some e \<and>
         dom e = {''symbol'', ''name'', ''description'', ''price'', ''change_pct''} \<and>
         e ''symbol'' = Some (JStr (to_symbol t))) \<and>
     ((\<forall>n s. yf_download P n s = Download_Raises) \<and> (\<forall>n s. yf_history P n s = History_Raises) \<longrightarrow>
        (\<forall>t \<in> set (take 200 tickers). \<exists>e.
            response t = Some e \<and> e ''price'' = Some JNull \<and> e ''change_pct'' = Some JNull)) \<and>
     ((\<forall>n s. yf_info P n s = Info_Raises) \<and> company_info_cache w = Map.empty \<longrightarrow>
        (\<forall>t \<in> set (take 200 tickers). \<exists>e.
            response t = Some e \<and> e ''name'' = Some (JStr (to_symbol t)) \<and>
            e ''description'' = Some (JStr '''')))"
proof -
  let ?ts = "take MAX_TICKERS tickers"
  obtain price_data w1 where
    g: "get_latest_prices N P ?ts w = (Inr price_data, w1)" and
    c: "company_info_cache w1 = company_info_cache w" and
    p: "prices N P tickers w =
       (Inr (fst (attach_company_info P price_data ?ts Map.empty w1)),
        snd (attach_company_info P price_data ?ts Map.empty w1))"
    using prices_total by blast
  define pd where "pd = (\<lambda>t. case price_data t of Some d \<Rightarrow> d | None \<Rightarrow> null_quote)"
  define response where "response = fst (attach_company_info P price_data ?ts Map.empty w1)"
  define w' where "w' = snd (attach_company_info P price_data ?ts Map.empty w1)"
  have run: "prices N P tickers w = (Inr response, w')"
    by (simp only: p response_def w'_def)
  have ts: "take 200 tickers = ?ts" by (simp add: MAX_TICKERS_def)
  have dom: "dom response = set ?ts"
    by (simp add: response_def dom_attach_company_info)
  have entry: "\<exists>e i. response t = Some e \<and> e = merged_entry t i (pd t)"
    if "t \<in> set ?ts" for t
  proof -
    have "t \<in> dom response" using that by (simp only: dom)
    then obtain e where e: "response t = Some e" by (auto simp: dom_def)
    have "fst (attach_company_info P price_data ?ts Map.empty w1) t = Some e"
      using e by (simp only: response_def)
    from attach_company_info_entries[OF this]
    obtain i where "e = merged_entry t i (pd t)" by (auto simp: pd_def)
    with e show ?thesis by (intro exI conjI)
  qed
  have a: "\<forall>t \<in> set (take 200 tickers). \<exists>e.
         response t = Some e \<and>
         dom e = {''symbol'', ''name'', ''description'', ''price'', ''change_pct''} \<and>
         e ''symbol'' = Some (JStr (to_symbol t))"
  proof
    fix t assume "t \<in> set (take 200 tickers)"
    then have "t \<in> set ?ts" by (simp only: ts)
    from entry[OF this] obtain e i where
      e: "response t = Some e" and i: "e = merged_entry t i (pd t)" by auto
    have "dom e = {''symbol'', ''name'', ''description'', ''price'', ''change_pct''}"
      unfolding i by (rule dom_merged_entry)
    moreover have "e ''symbol'' = Some (JStr (to_symbol t))"
      unfolding i by (rule merged_entry_symbol)
    ultimately show "\<exists>e. response t = Some e \<and>
         dom e = {''symbol'', ''name'', ''description'', ''price'', ''change_pct''} \<and>
         e ''symbol'' = Some (JStr (to_symbol t))"
      using e by (intro exI conjI)
  qed
  have b: "\<forall>t \<in> set (take 200 tickers). \<exists>e.
            response t = Some e \<and> e ''price'' = Some JNull \<and> e ''change_pct'' = Some JNull"
    if dead: "(\<forall>n s. yf_download P n s = Download_Raises) \<and> (\<forall>n s. yf_history P n s = History_Raises)"
  proof
    fix t assume "t \<in> set (take 200 tickers)"
    then have "t \<in> set ?ts" by (simp only: ts)
    from entry[OF this] obtain e i where
      e: "response t = Some e" and i: "e = merged_entry t i (pd t)" by auto
    have nf: "\<not> found N P d" for d
      using dead by (intro not_found_dead) simp_all
    have pd: "pd t = null_quote"
    proof (cases "price_data t")
      case None
      then show ?thesis by (simp add: pd_def)
    next
      case (Some d)
      from get_latest_prices_entries[OF g Some] nf have "d = null_quote" by simp
      then show ?thesis by (simp add: Some pd_def)
    qed
    have "e ''price'' = Some JNull" "e ''change_pct'' = Some JNull"
      unfolding i pd by (simp_all add: merged_entry_price null_quote_price)
    then show "\<exists>e. response t = Some e \<and> e ''price'' = Some JNull \<and> e ''change_pct'' = Some JNull"
      using e by (intro exI conjI)
  qed
  have d: "\<forall>t \<in> set (take 200 tickers). \<exists>e.
            response t = Some e \<and> e ''name'' = Some (JStr (to_symbol t)) \<and>
            e ''description'' = Some (JStr '''')"
    if dead: "(\<forall>n s. yf_info P n s = Info_Raises) \<and> company_info_cache w = Map.empty"
  proof
    fix t assume "t \<in> set (take 200 tickers)"
    then have t: "t \<in> set ?ts" by (simp only: ts)
    from entry[OF this] obtain e where e: "response t = Some e" by auto
    have d1: "\<forall>n s. yf_info P n s = Info_Raises" using dead by simp
    have inv: "\<forall>s e. company_info_cache w1 s = Some e \<longrightarrow> info e = fallback_info s"
      using dead by (simp add: c)
    have "fst (attach_company_info P price_data ?ts Map.empty w1) t = Some e"
      using e by (simp only: response_def)
    from attach_company_info_dead[OF d1 inv this]
    have i: "e = merged_entry t (fallback_info (to_symbol t)) (pd t)" by (simp add: pd_def)
    have "e ''name'' = Some (JStr (to_symbol t))" "e ''description'' = Some (JStr '''')"
      unfolding i by (simp_all add: merged_entry_fallback)
    then show "\<exists>e. response t = Some e \<and> e ''name'' = Some (JStr (to_symbol t)) \<and>
            e ''description'' = Some (JStr '''')"
      using e by (intro exI conjI)
  qed
  from b have b': "(\<forall>n s. yf_download P n s = Download_Raises) \<and> (\<forall>n s. yf_history P n s = History_Raises) \<longrightarrow>
        (\<forall>t \<in> set (take 200 tickers). \<exists>e.
            response t = Some e \<and> e ''price'' = Some JNull \<and> e ''change_pct'' = Some JNull)"
    by (rule impI)
  from d have d': "(\<forall>n s. yf_info P n s = Info_Raises) \<and> company_info_cache w = Map.empty \<longrightarrow>
        (\<forall>t \<in> set (take 200 tickers). \<exists>e.
            response t = Some e \<and> e ''name'' = Some (JStr (to_symbol t)) \<and>
            e ''description'' = Some (JStr ''''))"
    by (rule impI)
  from run a b' d' show ?thesis by (intro exI conjI)
qed

section \<open>Worked requests\<close>

lemmas prices_eval = prices_def MAX_TICKERS_def fetch_company_info_def COMPANY_INFO_TTL_def

lemma verbose_run:
  "case prices exact_numerics verbose_provider [''TCS''] initial_world of
     (Inr r, w') \<Rightarrow>
       (case r ''TCS'' of
          Some e \<Rightarrow> e ''description'' = Some (JStr (replicate 600 (CHR ''x'')))
        | None \<Rightarrow> False)
   | (Inl e, w') \<Rightarrow> False"
  by (simp add: prices_eval price_eval string_eval verbose_provider_def initial_world_def)

theorem description_truncated_witness:
  "\<exists>response w' e d.
     prices exact_numerics verbose_provider [''TCS''] initial_world = (Inr response, w') \<and>
     response ''TCS'' = Some e \<and> e ''description'' = Some (JStr d) \<and>
     d = replicate 600 (CHR ''x'') \<and> length d \<le> 600"
proof -
  obtain response w' where run:
    "prices exact_numerics verbose_provider [''TCS''] initial_world = (Inr response, w')"
    using prices_total by blast
  obtain e where e: "response ''TCS'' = Some e"
      "e ''description'' = Some (JStr (replicate 600 (CHR ''x'')))"
    using verbose_run by (auto simp: run split: option.splits)
  from description_truncated[OF run e(1)] obtain d where
    d: "e ''description'' = Some (JStr d)" "length d \<le> 600" by auto
  have "d = replicate 600 (CHR ''x'')" using d(1) e(2) by simp
  with run e(1) d show ?thesis by (intro exI conjI)
qed

theorem prices_never_raises_witness:
  "\<exists>response w' e.
     prices exact_numerics dead_provider [''TCS'', ''FAKE123''] initial_world = (Inr response, w') \<and>
     response ''FAKE123'' = Some e \<and>
     dom e = {''symbol'', ''name'', ''description'', ''price'', ''change_pct''} \<and>
     e ''symbol'' = Some (JStr ''FAKE123.NS'') \<and>
     e ''price'' = Some JNull \<and> e ''change_pct'' = Some JNull \<and>
     e ''name'' = Some (JStr ''FAKE123.NS'') \<and> e ''description'' = Some (JStr '''')"
proof -
  have mem: "''FAKE123'' \<in> set (take 200 [''TCS'', ''FAKE123''])" by simp
  have sym: "to_symbol ''FAKE123'' = ''FAKE123.NS''" by (simp add: string_eval)
  have dead1: "(\<forall>n s. yf_download dead_provider n s = Download_Raises) \<and>
               (\<forall>n s. yf_history dead_provider n s = History_Raises)"
    by (simp add: dead_provider_def)
  have dead2: "(\<forall>n s. yf_info dead_provider n s = Info_Raises) \<and>
               company_info_cache initial_world = Map.empty"
    by (simp add: dead_provider_def initial_world_def)
  from prices_never_raises[of exact_numerics dead_provider "[''TCS'', ''FAKE123'']" initial_world]
  show ?thesis
  proof (elim exE conjE)
    fix response w'
    assume run: "prices exact_numerics dead_provider [''TCS'', ''FAKE123''] initial_world = (Inr response, w')"
      and a: "\<forall>t \<in> set (take 200 [''TCS'', ''FAKE123'']). \<exists>e.
         response t = Some e \<and>
         dom e = {''symbol'', ''name'', ''description'', ''price'', ''change_pct''} \<and>
         e ''symbol'' = Some (JStr (to_symbol t))"
      and b0: "(\<forall>n s. yf_download dead_provider n s = Download_Raises) \<and>
               (\<forall>n s. yf_history dead_provider n s = History_Raises) \<longrightarrow>
          (\<forall>t \<in> set (take 200 [''TCS'', ''FAKE123'']). \<exists>e.
            response t = Some e \<and> e ''price'' = Some JNull \<and> e ''change_pct'' = Some JNull)"
      and d0: "(\<forall>n s. yf_info dead_provider n s = Info_Raises) \<and>
               company_info_cache initial_world = Map.empty \<longrightarrow>
          (\<forall>t \<in> set (take 200 [''TCS'', ''FAKE123'']). \<exists>e.
            response t = Some e \<and> e ''name'' = Some (JStr (to_symbol t)) \<and>
            e ''description'' = Some (JStr ''''))"
    note b = b0[rule_format, OF dead1, rule_format]
    note d = d0[rule_format, OF dead2, rule_format]
    from a[rule_format, OF mem] obtain e where e: "response ''FAKE123'' = Some e"
      "dom e = {''symbol'', ''name'', ''description'', ''price'', ''change_pct''}"
      "e ''symbol'' = Some (JStr (to_symbol ''FAKE123''))"
      by (elim exE conjE)
    from b[OF mem] e(1) have p: "e ''price'' = Some JNull" "e ''change_pct'' = Some JNull"
      by auto
    from d[OF mem] e(1) have n: "e ''name'' = Some (JStr (to_symbol ''FAKE123''))"
      "e ''description'' = Some (JStr '''')"
      by auto
    from run e p n show ?thesis unfolding sym by (intro exI conjI)
  qed
qed

section \<open>The individual fallback\<close>























section \<open>A history whose only close is missing\<close>


end
